theory Spec2Isabelle
  imports Complex_Main "HOL-Library.Word"
begin

section \<open>Errors\<close>

text \<open>
  Go's \<open>error\<close> values, as far as the sources build and print them: a plain message
  (\<open>fmt.Errorf\<close> and \<open>errors.New\<close> without verbs) and a wrapped error
  (\<open>errors.Wrap err msg\<close>). \<open>Error\<close> is the method \<open>err.Error()\<close>, which a
  \<open>%s\<close> verb prints.
\<close>

datatype error = Errorf string | Wrap error string

fun Error :: "error \<Rightarrow> string" where
  "Error (Errorf msg) = msg"
| "Error (Wrap err msg) = msg @ '': '' @ Error err"

section \<open>Package up: the upload walker\<close>

subsection \<open>Go library functions used by walk\<close>

text \<open>
  \<open>os.IsPathSeparator\<close> on a Unix build.
\<close>

definition IsPathSeparator :: "char \<Rightarrow> bool" where
  "IsPathSeparator c = (c = CHR ''/'')"

text \<open>
  \<open>filepath.Ext\<close>: the loop runs from the last byte towards the first, stops at a path
  separator, and returns the suffix that starts at the first dot it meets; the result is
  empty when it meets none. \<open>ext_scan\<close> is that loop on the reversed path, with the bytes
  already passed in \<open>acc\<close>.
\<close>

fun ext_scan :: "string \<Rightarrow> string \<Rightarrow> string" where
  "ext_scan [] acc = []"
| "ext_scan (c # cs) acc =
     (if IsPathSeparator c then []
      else if c = CHR ''.'' then c # acc
      else ext_scan cs (c # acc))"

definition Ext :: "string \<Rightarrow> string" where
  "Ext path = ext_scan (rev path) []"

text \<open>
  \<open>strings.TrimRight s cutset\<close> removes every trailing character of \<open>s\<close> that occurs in
  \<open>cutset\<close>; the cutset is a set of characters, not a suffix. (Go compares bytes when the
  cutset is ASCII, as every cutset below is, and code points otherwise.)
\<close>

definition TrimRight :: "string \<Rightarrow> string \<Rightarrow> string" where
  "TrimRight s cutset = rev (dropWhile (\<lambda>c. c \<in> set cutset) (rev s))"

subsection \<open>The walker\<close>

text \<open>
  The struct \<open>file\<close> of package up, with the two fields \<open>walk\<close> writes: \<open>file\<close>
  (here \<open>file_path\<close>, the word \<open>file\<close> being reserved) and \<open>thumb\<close>; an empty
  \<open>thumb\<close> is Go's zero value, the field left unset.
\<close>

record file_rec =
  file_path :: string
  thumb :: string

text \<open>
  One call of the \<open>WalkDir\<close> callback: the path, whether the entry is a directory, and
  the error \<open>WalkDir\<close> hands over.
\<close>

record walk_entry =
  w_path :: string
  w_isDir :: bool
  w_err :: "error option"

text \<open>
  What \<open>walk\<close> takes from outside the file: the constant \<open>consts.UploadThumbExt\<close>, the
  helpers \<open>filterMap.New\<close> and \<open>fsutil.AddPrefixDot\<close> (a \<open>map[string]struct{}\<close> is the
  set of its keys, and the map \<open>filterMap.New\<close> returns is not nil, since \<open>walk\<close>
  assigns to it), and the file system, as the sequence of callback calls
  \<open>filepath.WalkDir\<close> makes below a root and the predicate \<open>fsutil.PathExists\<close>.
\<close>

record up_env =
  UploadThumbExt :: string
  filterMap_New :: "string list \<Rightarrow> (string \<Rightarrow> string) \<Rightarrow> string set"
  AddPrefixDot :: "string \<Rightarrow> string"
  WalkDir :: "string \<Rightarrow> walk_entry list"
  PathExists :: "string \<Rightarrow> bool"

definition walk_includesMap :: "up_env \<Rightarrow> string list \<Rightarrow> string set" where
  "walk_includesMap env includes = filterMap_New env includes (AddPrefixDot env)"

definition walk_excludesMap :: "up_env \<Rightarrow> string list \<Rightarrow> string set" where
  "walk_excludesMap env excludes =
     insert (UploadThumbExt env) (filterMap_New env excludes (AddPrefixDot env))"

text \<open>
  The callback passed to \<open>WalkDir\<close>; \<open>files\<close> is the slice it appends to.
\<close>

definition walk_fn ::
  "up_env \<Rightarrow> string set \<Rightarrow> string set \<Rightarrow> file_rec list \<Rightarrow> walk_entry \<Rightarrow> error + file_rec list" where
  "walk_fn env includesMap excludesMap files e =
     (case w_err e of
        Some err \<Rightarrow> Inl err
      | None \<Rightarrow>
          if w_isDir e then Inr files
          else
            let path = w_path e; ext = Ext path in
            if includesMap \<noteq> {} \<and> ext \<notin> includesMap then Inr files
            else if excludesMap \<noteq> {} \<and> ext \<in> excludesMap then Inr files
            else
              let f = \<lparr>file_path = path, thumb = []\<rparr>;
                  t = TrimRight path (Ext path) @ UploadThumbExt env
              in Inr (files @ [if PathExists env t then f\<lparr>thumb := t\<rparr> else f]))"

text \<open>
  \<open>WalkDir\<close> stops at the first error its callback returns and returns that error.
\<close>

fun walk_dir ::
  "up_env \<Rightarrow> string set \<Rightarrow> string set \<Rightarrow> walk_entry list \<Rightarrow> file_rec list \<Rightarrow> error + file_rec list" where
  "walk_dir env inc exc [] files = Inr files"
| "walk_dir env inc exc (e # es) files =
     (case walk_fn env inc exc files e of
        Inl err \<Rightarrow> Inl err
      | Inr files' \<Rightarrow> walk_dir env inc exc es files')"

fun walk_paths ::
  "up_env \<Rightarrow> string set \<Rightarrow> string set \<Rightarrow> string list \<Rightarrow> file_rec list \<Rightarrow> error + file_rec list" where
  "walk_paths env inc exc [] files = Inr files"
| "walk_paths env inc exc (path # paths) files =
     (case walk_dir env inc exc (WalkDir env path) files of
        Inl err \<Rightarrow> Inl err
      | Inr files' \<Rightarrow> walk_paths env inc exc paths files')"

definition walk :: "up_env \<Rightarrow> string list \<Rightarrow> string list \<Rightarrow> string list \<Rightarrow> error + file_rec list" where
  "walk env paths includes excludes =
     walk_paths env (walk_includesMap env includes) (walk_excludesMap env excludes) paths []"

text \<open>
  A file system for the examples: the directory \<open>dir\<close> holds \<open>test.thumb\<close> and
  \<open>test.txt\<close>, visited in lexical order. The helpers are the evident ones: the key
  function applied to every element, and a dot put in front of an extension lacking it.
\<close>

definition example_env :: up_env where
  "example_env =
     \<lparr>UploadThumbExt = ''.thumb'',
      filterMap_New = (\<lambda>data keyFn. set (map keyFn data)),
      AddPrefixDot = (\<lambda>s. if take 1 s = ''.'' then s else ''.'' @ s),
      WalkDir = (\<lambda>root. if root = ''dir''
         then [\<lparr>w_path = ''dir'', w_isDir = True, w_err = None\<rparr>,
               \<lparr>w_path = ''dir/test.thumb'', w_isDir = False, w_err = None\<rparr>,
               \<lparr>w_path = ''dir/test.txt'', w_isDir = False, w_err = None\<rparr>]
         else [\<lparr>w_path = root, w_isDir = False, w_err = Some (Errorf ''no such file'')\<rparr>]),
      PathExists = (\<lambda>p. p \<in> {''dir'', ''dir/test.thumb'', ''dir/test.txt''})\<rparr>"

section \<open>Package tclient: building the client\<close>

text \<open>
  \<open>time.Duration\<close> is a 64-bit count of nanoseconds.
\<close>

type_synonym Duration = "64 word"

definition Millisecond :: Duration where
  "Millisecond = 1000000"

definition Second :: Duration where
  "Second = 1000000000"

text \<open>
  The exported fields of \<open>backoff.ExponentialBackOff\<close>; the two factors are Go floats,
  kept here as the decimal numbers written in the sources.
\<close>

record ExponentialBackOff =
  InitialInterval :: Duration
  RandomizationFactor :: rat
  Multiplier :: rat
  MaxInterval :: Duration
  MaxElapsedTime :: Duration

text \<open>
  The values \<open>New\<close> builds from other packages, each named after the call that makes it.
  A middleware of the caller's own is \<open>Middleware_other\<close>; a session backend of the
  caller's is \<open>Session_of\<close>, the in-memory store with its bytes is \<open>StorageMemory\<close>.
\<close>

datatype Limit = rate_Every Duration

datatype ('ctx, 'm) Middleware =
    recovery_New 'ctx ExponentialBackOff
  | retry_New int
  | floodwait_NewSimpleWaiter
  | ratelimit_New Limit int
  | Middleware_other 'm

datatype 's SessionStorage = Session_of 's | StorageMemory string

datatype Clock = tdclock_System | clock_NTP string

datatype DialFunc = proxy_Direct_DialContext | netutil_Proxy_DialContext string

datatype Resolver = dcs_Plain DialFunc

datatype 'ctx Logger = logctx_From 'ctx | Named "'ctx Logger" string

record ('ctx, 's, 'm, 'u) Options =
  AppID :: int
  AppHash :: string
  Session :: 's
  Middlewares :: "('ctx, 'm) Middleware list"
  Proxy :: string
  NTP :: string
  ReconnectTimeout :: Duration
  Test :: string
  UpdateHandler :: 'u

text \<open>
  \<open>telegram.Options\<close>, with the fields \<open>New\<close> sets; the fields \<open>Middlewares\<close> and
  \<open>UpdateHandler\<close> carry the prefix \<open>td\<close> to keep them apart from those of \<open>Options\<close>.
\<close>

record ('ctx, 's, 'm, 'u, 'dev) telegram_Options =
  Resolver :: Resolver
  ReconnectionBackoff :: "unit \<Rightarrow> ExponentialBackOff"
  tdUpdateHandler :: 'u
  Device :: 'dev
  SessionStorage :: "'s SessionStorage"
  RetryInterval :: Duration
  MaxRetries :: int
  DialTimeout :: Duration
  tdMiddlewares :: "('ctx, 'm) Middleware list"
  Clock :: Clock
  Logger :: "'ctx Logger"

datatype ('ctx, 's, 'm, 'u, 'dev) Client =
  telegram_NewClient (client_appID: int) (client_appHash: string)
    (client_opts: "('ctx, 's, 'm, 'u, 'dev) telegram_Options")

text \<open>
  What \<open>New\<close> takes from outside the file: whether \<open>clock.NewNTP\<close>,
  \<open>netutil.NewProxy\<close> and \<open>StoreSession\<close> on a fresh \<open>session.StorageMemory\<close> fail
  on their argument (when they do not, the clock and the dialer are those of the address
  given, and the store holds the bytes given), the value
  \<open>backoff.NewExponentialBackOff\<close> returns, and the variable \<open>tutil.Device\<close>.
\<close>

record 'dev tclient_env =
  clock_NewNTP :: "string \<Rightarrow> error option"
  netutil_NewProxy :: "string \<Rightarrow> error option"
  StoreSession :: "string \<Rightarrow> error option"
  backoff_NewExponentialBackOff :: ExponentialBackOff
  tutil_Device :: 'dev

definition newBackoff :: "'dev tclient_env \<Rightarrow> Duration \<Rightarrow> ExponentialBackOff" where
  "newBackoff env timeout =
     (backoff_NewExponentialBackOff env)
       \<lparr>Multiplier := 11 / 10, MaxElapsedTime := timeout, MaxInterval := 10 * Second\<rparr>"

definition NewDefaultMiddlewares ::
  "'dev tclient_env \<Rightarrow> 'ctx \<Rightarrow> Duration \<Rightarrow> ('ctx, 'm) Middleware list" where
  "NewDefaultMiddlewares env ctx timeout =
     [recovery_New ctx (newBackoff env timeout), retry_New 5, floodwait_NewSimpleWaiter]"

text \<open>
  \<open>New\<close>, in the order of the source: the clock, the dialer, the options, the test
  session. \<open>New_opts\<close> is the struct literal \<open>opts\<close>.
\<close>

definition New_clock :: "'dev tclient_env \<Rightarrow> string \<Rightarrow> error + Clock" where
  "New_clock env ntp =
     (if ntp \<noteq> [] then
        (case clock_NewNTP env ntp of
           Some err \<Rightarrow> Inl (Wrap err ''create network clock'')
         | None \<Rightarrow> Inr (clock_NTP ntp))
      else Inr tdclock_System)"

definition New_dialer :: "'dev tclient_env \<Rightarrow> string \<Rightarrow> error + DialFunc" where
  "New_dialer env p =
     (if p \<noteq> [] then
        (case netutil_NewProxy env p of
           Some err \<Rightarrow> Inl (Wrap err ''get dialer'')
         | None \<Rightarrow> Inr (netutil_Proxy_DialContext p))
      else Inr proxy_Direct_DialContext)"

definition New_opts ::
  "'dev tclient_env \<Rightarrow> 'ctx \<Rightarrow> ('ctx, 's, 'm, 'u) Options \<Rightarrow> Clock \<Rightarrow> DialFunc \<Rightarrow>
   ('ctx, 's, 'm, 'u, 'dev) telegram_Options" where
  "New_opts env ctx opt tclock dialer =
     \<lparr>Resolver = dcs_Plain dialer,
      ReconnectionBackoff = (\<lambda>_. newBackoff env (ReconnectTimeout opt)),
      tdUpdateHandler = UpdateHandler opt,
      Device = tutil_Device env,
      SessionStorage = Session_of (Session opt),
      RetryInterval = 5 * Second,
      MaxRetries = - 1,
      DialTimeout = 10 * Second,
      tdMiddlewares = NewDefaultMiddlewares env ctx (ReconnectTimeout opt) @ Middlewares opt,
      Clock = tclock,
      Logger = Named (logctx_From ctx) ''td''\<rparr>"

definition New ::
  "'dev tclient_env \<Rightarrow> 'ctx \<Rightarrow> ('ctx, 's, 'm, 'u) Options \<Rightarrow>
   error + ('ctx, 's, 'm, 'u, 'dev) Client" where
  "New env ctx opt =
     (case New_clock env (NTP opt) of
        Inl err \<Rightarrow> Inl err
      | Inr tclock \<Rightarrow>
          (case New_dialer env (Proxy opt) of
             Inl err \<Rightarrow> Inl err
           | Inr dialer \<Rightarrow>
               let opts = New_opts env ctx opt tclock dialer in
               if Test opt \<noteq> [] then
                 (case StoreSession env (Test opt) of
                    Some err \<Rightarrow> Inl (Wrap err ''store test session'')
                  | None \<Rightarrow>
                      Inr (telegram_NewClient (AppID opt) (AppHash opt)
                        (opts\<lparr>SessionStorage := StorageMemory (Test opt),
                              tdMiddlewares := tdMiddlewares opts @
                                [ratelimit_New (rate_Every (100 * Millisecond)) 5]\<rparr>)))
               else Inr (telegram_NewClient (AppID opt) (AppHash opt) opts)))"

text \<open>
  Modelled from the spec: how the client library applies the middleware list, which is
  not among the sources: "an ordered list of (Call) -> Call transforms applied
  outermost-first". The first stage of the list wraps the call built from the rest.
\<close>

definition chain :: "('mw \<Rightarrow> 'call \<Rightarrow> 'call) \<Rightarrow> 'mw list \<Rightarrow> 'call \<Rightarrow> 'call" where
  "chain handle ms invoker = foldr handle ms invoker"

section \<open>Package tclient: the authorization gate\<close>

text \<open>
  A task runs on the state of the world \<open>'w\<close> and returns its error, if any, with the
  state it leaves. \<open>auth.Status\<close> has the field the gate reads.
\<close>

type_synonym 'w task = "'w \<Rightarrow> error option \<times> 'w"

record auth_Status =
  Authorized :: bool

text \<open>
  The closure \<open>RunWithAuth\<close> hands to \<open>client.Run\<close>; \<open>Status\<close> is
  \<open>client.Auth().Status\<close>.
\<close>

definition RunWithAuth_fn :: "('w \<Rightarrow> (error + auth_Status) \<times> 'w) \<Rightarrow> 'w task \<Rightarrow> 'w task" where
  "RunWithAuth_fn Status f w =
     (case Status w of
        (Inl err, w') \<Rightarrow> (Some err, w')
      | (Inr status, w') \<Rightarrow>
          if \<not> Authorized status
          then (Some (Errorf ''not authorized. please login first''), w')
          else f w')"

text \<open>
  \<open>client.Run\<close> belongs to the client library and is a parameter.
\<close>

definition RunWithAuth ::
  "('w task \<Rightarrow> 'w task) \<Rightarrow> ('w \<Rightarrow> (error + auth_Status) \<times> 'w) \<Rightarrow> 'w task \<Rightarrow> 'w task" where
  "RunWithAuth client_Run Status f = client_Run (RunWithAuth_fn Status f)"

text \<open>
  Modelled from the spec: the retry stage, whose package (core/middlewares/retry) is not
  among the sources. "The retry stage re-issues a failed individual RPC up to a fixed
  count (default 5) only for failures classified as transient (network/timeout), never
  for failures classified as protocol-level rejections"; the count is a budget of
  attempts ("a 5-attempt budget"). The classification is the parameter \<open>transient\<close>,
  \<open>next\<close> is the call the stage wraps. The call is issued once; \<open>retry_reissue n\<close> then
  has \<open>n\<close> attempts left after a failure \<open>err0\<close>, and gives that failure back when the
  budget is spent.
\<close>

fun retry_reissue :: "nat \<Rightarrow> (error \<Rightarrow> bool) \<Rightarrow> 'w task \<Rightarrow> error \<Rightarrow> 'w task" where
  "retry_reissue 0 transient next err0 w = (Some err0, w)"
| "retry_reissue (Suc n) transient next err0 w =
     (if transient err0 then
        (case next w of
           (None, w') \<Rightarrow> (None, w')
         | (Some err, w') \<Rightarrow> retry_reissue n transient next err w')
      else (Some err0, w))"

text \<open>
  Modelled from the spec: the handler of the retry stage built with the count \<open>limit\<close>
  (\<open>retry.New limit\<close>), not among the sources: the call is issued, and a failure is
  re-issued within the budget of \<open>limit\<close> attempts, the first one included.
\<close>

definition retry_Handle :: "int \<Rightarrow> (error \<Rightarrow> bool) \<Rightarrow> 'w task \<Rightarrow> 'w task" where
  "retry_Handle limit transient next w =
     (case next w of
        (None, w') \<Rightarrow> (None, w')
      | (Some err, w') \<Rightarrow> retry_reissue (nat limit - 1) transient next err w')"

text \<open>
  The wrapped call with its attempts observed: every call appends its outcome to a log
  kept beside the state.
\<close>

definition observed :: "'w task \<Rightarrow> (error option list \<times> 'w) task" where
  "observed next = (\<lambda>(lg, w). case next w of (r, w') \<Rightarrow> (r, (lg @ [r], w')))"

section \<open>Package extension: the install command\<close>

text \<open>
  What the command writes: \<open>colorPrint attrs\<close> prints the indentation and the bullet
  in colour, then the formatted line. The bullet is the three bytes of U+2022.
\<close>

datatype Attribute = FgBlue | FgGreen | FgRed | FgCyan | Bold

datatype printed = color_Print "Attribute list" string | fmt_Printf string

definition colorPrint :: "Attribute list \<Rightarrow> nat \<Rightarrow> string \<Rightarrow> printed list" where
  "colorPrint attrs padding line =
     [color_Print attrs (concat (replicate padding ''  '') @ [CHR 0xE2, CHR 0x80, CHR 0xA2] @ '' ''),
      fmt_Printf (line @ [CHR 0x0A])]"

definition info :: "nat \<Rightarrow> string \<Rightarrow> printed list" where
  "info = colorPrint [FgBlue, Bold]"

definition succ :: "nat \<Rightarrow> string \<Rightarrow> printed list" where
  "succ = colorPrint [FgGreen, Bold]"

definition fail :: "nat \<Rightarrow> string \<Rightarrow> printed list" where
  "fail = colorPrint [FgRed, Bold]"

text \<open>
  \<open>strings.IndexRune\<close> for an ASCII rune (the index of its first occurrence, or -1)
  and \<open>strings.HasPrefix\<close>.
\<close>

definition IndexRune :: "string \<Rightarrow> char \<Rightarrow> int" where
  "IndexRune s c = (if c \<in> set s then int (length (takeWhile (\<lambda>x. x \<noteq> c) s)) else - 1)"

definition HasPrefix :: "string \<Rightarrow> string \<Rightarrow> bool" where
  "HasPrefix s pre = (take (length pre) s = pre)"

text \<open>
  What the command takes from outside the file: the constant \<open>extensions.Prefix\<close>, the
  colouring \<open>Sprint\<close> of the colour library, and the manager's \<open>Install\<close>, which runs on
  the state of the world and may fail.
\<close>

record 'w extension_env =
  extensions_Prefix :: string
  color_Sprint :: "Attribute list \<Rightarrow> string \<Rightarrow> string"
  em_Install :: "string \<Rightarrow> bool \<Rightarrow> 'w task"

definition normalizeExtName :: "'w extension_env \<Rightarrow> string \<Rightarrow> string" where
  "normalizeExtName env n =
     (let idx = IndexRune n (CHR ''/'');
          n1 = (if idx \<ge> 0 then drop (nat (idx + 1)) n else n);
          n2 = (if \<not> HasPrefix n1 (extensions_Prefix env) then extensions_Prefix env @ n1 else n1)
      in color_Sprint env [Bold, FgCyan] n2)"

text \<open>
  \<open>Install\<close> returns its error, what it printed, and the state the manager leaves.
\<close>

definition Install ::
  "'w extension_env \<Rightarrow> string \<Rightarrow> bool \<Rightarrow> 'w \<Rightarrow> error option \<times> printed list \<times> 'w" where
  "Install env target force w =
     (let out = info 0 (''installing extension '' @ normalizeExtName env target @ ''...'') in
      case em_Install env target force w of
        (Some err, w') \<Rightarrow>
          (None,
           out @ fail 0 (''install extension '' @ normalizeExtName env target @
                         '' failed: '' @ Error err),
           w')
      | (None, w') \<Rightarrow>
          (None,
           out @ succ 0 (''extension '' @ normalizeExtName env target @ '' installed''),
           w'))"

section \<open>Example inputs\<close>

text \<open>
  An environment in which no outside call fails, with the defaults of the backoff
  library, and options that name no clock, no proxy and no test session.
\<close>

definition example_tenv :: "unit tclient_env" where
  "example_tenv =
     \<lparr>clock_NewNTP = (\<lambda>_. None),
      netutil_NewProxy = (\<lambda>_. None),
      StoreSession = (\<lambda>_. None),
      backoff_NewExponentialBackOff =
        \<lparr>InitialInterval = 500 * Millisecond, RandomizationFactor = 1 / 2, Multiplier = 3 / 2,
         MaxInterval = 60 * Second, MaxElapsedTime = 900 * Second\<rparr>,
      tutil_Device = ()\<rparr>"

definition example_Options :: "(unit, string, string, unit) Options" where
  "example_Options =
     \<lparr>AppID = 0, AppHash = [], Session = ''session.db'',
      Middlewares = [Middleware_other ''logging''],
      Proxy = [], NTP = [], ReconnectTimeout = 300 * Second, Test = [],
      UpdateHandler = ()\<rparr>"

text \<open>
  A call that times out four times and then succeeds; the state counts the calls.
\<close>

definition flaky :: "nat task" where
  "flaky n = (if n < 4 then Some (Errorf ''timeout'') else None, Suc n)"

text \<open>
  An extension manager whose \<open>Install\<close> fails, with colouring switched off.
\<close>

definition failing_em :: "unit extension_env" where
  "failing_em =
     \<lparr>extensions_Prefix = ''tdl-'',
      color_Sprint = (\<lambda>attrs s. s),
      em_Install = (\<lambda>target force w. (Some (Errorf ''network unreachable''), w))\<rparr>"

section \<open>Properties of the walker\<close>

lemma walk_excludesMap_thumb: "UploadThumbExt env \<in> walk_excludesMap env excludes"
  by (simp add: walk_excludesMap_def)

lemma walk_fn_file:
  assumes "walk_fn env inc exc files e = Inr files'" and "f \<in> set files'"
  shows "f \<in> set files \<or> (file_path f = w_path e \<and> Ext (w_path e) \<notin> exc)"
  using assms
  by (auto simp: walk_fn_def Let_def split: option.splits if_splits)

lemma walk_dir_file:
  assumes "walk_dir env inc exc es files = Inr files'" and "f \<in> set files'"
  shows "f \<in> set files \<or> Ext (file_path f) \<notin> exc"
  using assms
proof (induction es arbitrary: files)
  case Nil
  then show ?case by simp
next
  case (Cons e es)
  from Cons.prems(1) obtain mid where
    step: "walk_fn env inc exc files e = Inr mid" and
    rest: "walk_dir env inc exc es mid = Inr files'"
    by (auto split: sum.splits)
  from Cons.IH [OF rest Cons.prems(2)] have "f \<in> set mid \<or> Ext (file_path f) \<notin> exc" .
  then show ?case
    using walk_fn_file [OF step, of f] by fastforce
qed

lemma walk_paths_file:
  assumes "walk_paths env inc exc paths files = Inr files'" and "f \<in> set files'"
  shows "f \<in> set files \<or> Ext (file_path f) \<notin> exc"
  using assms
proof (induction paths arbitrary: files)
  case Nil
  then show ?case by simp
next
  case (Cons p ps)
  from Cons.prems(1) obtain mid where
    step: "walk_dir env inc exc (WalkDir env p) files = Inr mid" and
    rest: "walk_paths env inc exc ps mid = Inr files'"
    by (auto split: sum.splits)
  from Cons.IH [OF rest Cons.prems(2)] have "f \<in> set mid \<or> Ext (file_path f) \<notin> exc" .
  then show ?case
    using walk_dir_file [OF step, of f] by fastforce
qed

lemma example_walk:
  "walk example_env [''dir''] [] [] = Inr [\<lparr>file_path = ''dir/test.txt'', thumb = []\<rparr>]"
  by (simp add: walk_def walk_includesMap_def walk_excludesMap_def example_env_def
      walk_fn_def Ext_def IsPathSeparator_def TrimRight_def)

text \<open>
  Claim C9. Whatever the paths, the includes and the excludes, the exclusion set holds the
  thumbnail extension, and no file that \<open>walk\<close> returns has the thumbnail extension:
  neither an empty excludes list nor an includes list naming the thumbnail extension
  lets such a file through.
\<close>

theorem walk_never_emits_thumb:
  "UploadThumbExt env \<in> walk_excludesMap env excludes \<and>
   (\<forall>files. walk env paths includes excludes = Inr files \<longrightarrow>
      (\<forall>f \<in> set files. Ext (file_path f) \<noteq> UploadThumbExt env))"
proof (intro conjI allI impI ballI)
  show "UploadThumbExt env \<in> walk_excludesMap env excludes"
    by (rule walk_excludesMap_thumb)
next
  fix files f
  assume run: "walk env paths includes excludes = Inr files" and mem: "f \<in> set files"
  from run have "walk_paths env (walk_includesMap env includes)
      (walk_excludesMap env excludes) paths [] = Inr files"
    by (simp add: walk_def)
  from walk_paths_file [OF this mem] have "Ext (file_path f) \<notin> walk_excludesMap env excludes"
    by simp
  then show "Ext (file_path f) \<noteq> UploadThumbExt env"
    using walk_excludesMap_thumb [of env excludes] by auto
qed


theorem walk_never_emits_thumb_witness:
  "walk example_env [''dir''] [] [] = Inr [\<lparr>file_path = ''dir/test.txt'', thumb = []\<rparr>] \<and>
   Ext ''dir/test.txt'' \<noteq> UploadThumbExt example_env"
proof -
  have run: "walk example_env [''dir''] [] [] = Inr [\<lparr>file_path = ''dir/test.txt'', thumb = []\<rparr>]"
    by (rule example_walk)
  from walk_never_emits_thumb [of example_env "[]" "[''dir'']" "[]"] run
  have "\<forall>f \<in> set [\<lparr>file_path = ''dir/test.txt'', thumb = []\<rparr>].
          Ext (file_path f) \<noteq> UploadThumbExt example_env"
    by blast
  then show ?thesis using run by simp
qed

text \<open>
  Claim C7. The claim is that a returned file carries a thumbnail exactly when the file
  named by its path, with the extension replaced by the thumbnail extension, exists.
  \<open>walk\<close> builds the name with \<open>TrimRight\<close>, which strips trailing characters of the
  set \<open>.\<close>, \<open>t\<close>, \<open>x\<close> and not the suffix \<open>.txt\<close>: for \<open>dir/test.txt\<close> it looks for
  \<open>dir/tes.thumb\<close>. In the directory holding \<open>test.txt\<close> and \<open>test.thumb\<close> the
  thumbnail exists and the returned file carries none.
\<close>

theorem walk_thumb_trims_cutset:
  "PathExists example_env ''dir/test.thumb'' \<and>
   TrimRight ''dir/test.txt'' (Ext ''dir/test.txt'') @ UploadThumbExt example_env =
     ''dir/tes.thumb'' \<and>
   walk example_env [''dir''] [] [] = Inr [\<lparr>file_path = ''dir/test.txt'', thumb = []\<rparr>]"
  by (simp add: walk_def walk_includesMap_def walk_excludesMap_def example_env_def
      walk_fn_def Ext_def IsPathSeparator_def TrimRight_def)

section \<open>Properties of the client construction\<close>

lemma example_New_test:
  "New example_tenv () (example_Options\<lparr>Test := ''token''\<rparr>) =
     Inr (telegram_NewClient 0 []
       ((New_opts example_tenv () (example_Options\<lparr>Test := ''token''\<rparr>)
           tdclock_System proxy_Direct_DialContext)
        \<lparr>SessionStorage := StorageMemory ''token'',
         tdMiddlewares :=
           [recovery_New () (newBackoff example_tenv (300 * Second)), retry_New 5,
            floodwait_NewSimpleWaiter, Middleware_other ''logging'',
            ratelimit_New (rate_Every (100 * Millisecond)) 5]\<rparr>))"
  by (simp add: New_def New_clock_def New_dialer_def New_opts_def NewDefaultMiddlewares_def
      example_tenv_def example_Options_def)

text \<open>
  Claim C10. When the options name no time server, no proxy and no test session, \<open>New\<close>
  returns a client and no error, whatever the application id, the application hash, the
  session backend, the middlewares, the reconnect timeout and the update handler are:
  they are stored, not checked.
\<close>

theorem New_no_validation:
  assumes "NTP opt = []" and "Proxy opt = []" and "Test opt = []"
  shows "New env ctx opt =
     Inr (telegram_NewClient (AppID opt) (AppHash opt)
            (New_opts env ctx opt tdclock_System proxy_Direct_DialContext))"
  using assms by (simp add: New_def New_clock_def New_dialer_def)

theorem New_no_validation_witness:
  "NTP example_Options = [] \<and> Proxy example_Options = [] \<and> Test example_Options = [] \<and>
   AppID example_Options = 0 \<and> AppHash example_Options = [] \<and>
   New example_tenv () example_Options =
     Inr (telegram_NewClient 0 []
            (New_opts example_tenv () example_Options tdclock_System proxy_Direct_DialContext))"
proof -
  have h: "NTP example_Options = []" "Proxy example_Options = []" "Test example_Options = []"
    by (simp_all add: example_Options_def)
  have v: "AppID example_Options = 0" "AppHash example_Options = []"
    by (simp_all add: example_Options_def)
  from New_no_validation [OF h, of example_tenv "()"] v h show ?thesis by simp
qed

text \<open>
  Claim C3. When the test token is not empty, the client \<open>New\<close> returns has the in-memory
  session store holding that token in place of the configured backend (which has no
  influence on the client), and its middleware list holds the rate-limit stage of one
  call per 100ms with burst 5.
\<close>

theorem New_test_session:
  assumes "Test opt \<noteq> []" and "New env ctx opt = Inr client"
  shows "SessionStorage (client_opts client) = StorageMemory (Test opt) \<and>
         ratelimit_New (rate_Every (100 * Millisecond)) 5
           \<in> set (tdMiddlewares (client_opts client)) \<and>
         New env ctx (opt\<lparr>Session := s\<rparr>) = Inr client"
  using assms
  by (auto simp: New_def New_opts_def Let_def split: sum.splits option.splits)

theorem New_test_session_witness:
  "Test (example_Options\<lparr>Test := ''token''\<rparr>) \<noteq> [] \<and>
   (\<exists>client. New example_tenv () (example_Options\<lparr>Test := ''token''\<rparr>) = Inr client \<and>
      SessionStorage (client_opts client) = StorageMemory ''token'' \<and>
      ratelimit_New (rate_Every (100 * Millisecond)) 5
        \<in> set (tdMiddlewares (client_opts client)) \<and>
      New example_tenv () (example_Options\<lparr>Test := ''token'', Session := ''other.db''\<rparr>) =
        Inr client)"
proof -
  have ne: "Test (example_Options\<lparr>Test := ''token''\<rparr>) \<noteq> []" by simp
  note run = example_New_test
  from New_test_session [OF ne run, of "''other.db''"] ne run show ?thesis
    by simp
qed

text \<open>
  Claim C5. The middleware list of every client \<open>New\<close> returns starts with the recovery
  stage, then the retry stage, then the flood-wait stage; the caller's middlewares come
  after these three (and the rate-limit stage of a test session after them). Applied
  outermost-first, recovery wraps every other stage and retry wraps flood-wait.
\<close>

theorem New_middleware_order:
  assumes "New env ctx opt = Inr client"
  shows "tdMiddlewares (client_opts client) =
       [recovery_New ctx (newBackoff env (ReconnectTimeout opt)), retry_New 5,
        floodwait_NewSimpleWaiter] @ Middlewares opt @
       (if Test opt \<noteq> [] then [ratelimit_New (rate_Every (100 * Millisecond)) 5] else []) \<and>
     (\<forall>handle invoker.
        chain handle (tdMiddlewares (client_opts client)) invoker =
          handle (recovery_New ctx (newBackoff env (ReconnectTimeout opt)))
            (handle (retry_New 5)
               (handle floodwait_NewSimpleWaiter
                  (chain handle (Middlewares opt @
                     (if Test opt \<noteq> []
                      then [ratelimit_New (rate_Every (100 * Millisecond)) 5] else []))
                     invoker))))"
  using assms
  by (auto simp: New_def New_opts_def Let_def NewDefaultMiddlewares_def chain_def
      split: sum.splits option.splits if_splits)

theorem New_middleware_order_witness:
  "\<exists>client. New example_tenv () (example_Options\<lparr>Test := ''token''\<rparr>) = Inr client \<and>
     tdMiddlewares (client_opts client) =
       [recovery_New () (newBackoff example_tenv (300 * Second)), retry_New 5,
        floodwait_NewSimpleWaiter, Middleware_other ''logging'',
        ratelimit_New (rate_Every (100 * Millisecond)) 5]"
proof -
  note run = example_New_test
  have t: "Test (example_Options\<lparr>Test := ''token''\<rparr>) \<noteq> []"
    "Middlewares (example_Options\<lparr>Test := ''token''\<rparr>) = [Middleware_other ''logging'']"
    "ReconnectTimeout (example_Options\<lparr>Test := ''token''\<rparr>) = 300 * Second"
    by (simp_all add: example_Options_def)
  from New_middleware_order [OF run] t run show ?thesis
    by simp
qed

section \<open>Properties of the authorization gate\<close>

text \<open>
  Claim C1. When the status check reports a session that is not authorized,
  \<open>RunWithAuth\<close> hands \<open>client.Run\<close> a task that fails with "not authorized. please
  login first" and leaves the state as the status check left it: the caller's task \<open>f\<close>
  does not occur in it, so it is not invoked. With a \<open>client.Run\<close> that returns what its
  task returns, \<open>RunWithAuth\<close> returns that error.
\<close>

theorem RunWithAuth_not_authorized:
  assumes "\<forall>w. \<exists>status w'. Status w = (Inr status, w') \<and> \<not> Authorized status"
  shows "RunWithAuth client_Run Status f =
           client_Run (\<lambda>w. (Some (Errorf ''not authorized. please login first''),
                            snd (Status w))) \<and>
         ((\<forall>task w. \<exists>w0. fst (client_Run task w) = fst (task w0)) \<longrightarrow>
            fst (RunWithAuth client_Run Status f w) =
              Some (Errorf ''not authorized. please login first''))"
proof -
  have fn: "RunWithAuth_fn Status f =
      (\<lambda>w. (Some (Errorf ''not authorized. please login first''), snd (Status w)))"
  proof
    fix w
    from assms obtain status w' where "Status w = (Inr status, w')" "\<not> Authorized status"
      by blast
    then show "RunWithAuth_fn Status f w =
        (Some (Errorf ''not authorized. please login first''), snd (Status w))"
      by (simp add: RunWithAuth_fn_def)
  qed
  show ?thesis
  proof (intro conjI impI)
    show "RunWithAuth client_Run Status f =
           client_Run (\<lambda>w. (Some (Errorf ''not authorized. please login first''),
                            snd (Status w)))"
      by (simp add: RunWithAuth_def fn)
  next
    assume run: "\<forall>task w. \<exists>w0. fst (client_Run task w) = fst (task w0)"
    then obtain w0 where
      "fst (client_Run (RunWithAuth_fn Status f) w) = fst (RunWithAuth_fn Status f w0)"
      by blast
    then show "fst (RunWithAuth client_Run Status f w) =
              Some (Errorf ''not authorized. please login first'')"
      by (simp add: RunWithAuth_def fn)
  qed
qed

text \<open>
  The witness counts the invocations of the caller's task in the state: the count stays 0.
\<close>

theorem RunWithAuth_not_authorized_witness:
  "RunWithAuth (\<lambda>task. task) (\<lambda>w. (Inr \<lparr>Authorized = False\<rparr>, w)) (\<lambda>n. (None, Suc n)) (0::nat) =
     (Some (Errorf ''not authorized. please login first''), 0) \<and>
   fst (RunWithAuth (\<lambda>task. task) (\<lambda>w. (Inr \<lparr>Authorized = False\<rparr>, w)) (\<lambda>n. (None, Suc n))
         (0::nat)) = Some (Errorf ''not authorized. please login first'')"
proof -
  have h: "\<forall>w::nat. \<exists>status w'.
      (Inr \<lparr>Authorized = False\<rparr>, w) = (Inr status, w') \<and> \<not> Authorized status"
    by simp
  have r: "\<forall>(task :: nat task) w. \<exists>w0. fst ((\<lambda>task. task) task w) = fst (task w0)"
    by auto
  note inst = RunWithAuth_not_authorized [of "\<lambda>w. (Inr \<lparr>Authorized = False\<rparr>, w)"
      "\<lambda>task. task" "\<lambda>n. (None, Suc n)" "0::nat", OF h]
  from inst
  have eq: "RunWithAuth (\<lambda>task. task) (\<lambda>w::nat. (Inr \<lparr>Authorized = False\<rparr>, w))
              (\<lambda>n. (None, Suc n)) =
           (\<lambda>w. (Some (Errorf ''not authorized. please login first''), w))"
    by simp
  from inst r
  have er: "fst (RunWithAuth (\<lambda>task. task) (\<lambda>w. (Inr \<lparr>Authorized = False\<rparr>, w))
         (\<lambda>n. (None, Suc n)) (0::nat)) = Some (Errorf ''not authorized. please login first'')"
    by blast
  from eq er show ?thesis by simp
qed

section \<open>Properties of the retry stage\<close>

lemma observed_apply:
  "observed next (lg, w) = (case next w of (r, w') \<Rightarrow> (r, (lg @ [r], w')))"
  by (simp add: observed_def)

text \<open>
  Re-issuing with \<open>n\<close> attempts left makes at most \<open>n\<close> calls; each call but the last one
  made failed with a transient error, the result is that of the last call, and a
  transient failure is the result only when the budget is spent.
\<close>

lemma retry_reissue_observed:
  assumes "retry_reissue n tr (observed next) e (lg, w) = (r, (lg', w'))"
  shows "\<exists>new. lg' = lg @ new \<and> length new \<le> n \<and>
           (\<forall>x \<in> set (butlast new). \<exists>e'. x = Some e' \<and> tr e') \<and>
           (new = [] \<longrightarrow> r = Some e) \<and>
           (new \<noteq> [] \<longrightarrow> tr e \<and> r = last new) \<and>
           (\<forall>e'. r = Some e' \<and> tr e' \<longrightarrow> length new = n)"
  using assms
proof (induction n arbitrary: e lg w)
  case 0
  then show ?case by auto
next
  case (Suc n)
  show ?case
  proof (cases "tr e")
    case False
    with Suc.prems show ?thesis by auto
  next
    case True
    obtain r1 w1 where nx: "next w = (r1, w1)" by (cases "next w")
    show ?thesis
    proof (cases r1)
      case None
      with Suc.prems True nx have "r = None" "lg' = lg @ [None]"
        by (auto simp: observed_apply)
      then show ?thesis using True by auto
    next
      case (Some e1)
      with Suc.prems True nx
      have "retry_reissue n tr (observed next) e1 (lg @ [Some e1], w1) = (r, (lg', w'))"
        by (auto simp: observed_apply)
      from Suc.IH [OF this] obtain new where
        new: "lg' = (lg @ [Some e1]) @ new" "length new \<le> n"
          "\<forall>x \<in> set (butlast new). \<exists>e'. x = Some e' \<and> tr e'"
          "new = [] \<longrightarrow> r = Some e1"
          "new \<noteq> [] \<longrightarrow> tr e1 \<and> r = last new"
          "\<forall>e'. r = Some e' \<and> tr e' \<longrightarrow> length new = n"
        by blast
      have "lg' = lg @ (Some e1 # new)" using new(1) by simp
      moreover have "length (Some e1 # new) \<le> Suc n" using new(2) by simp
      moreover have "\<forall>x \<in> set (butlast (Some e1 # new)). \<exists>e'. x = Some e' \<and> tr e'"
        using new(3,5) by auto
      moreover have "tr e \<and> r = last (Some e1 # new)"
        using True new(4,5) by auto
      moreover have "\<forall>e'. r = Some e' \<and> tr e' \<longrightarrow> length (Some e1 # new) = Suc n"
        using new(6) by auto
      ultimately show ?thesis by blast
    qed
  qed
qed

lemma retry_Handle_observed:
  assumes "retry_Handle limit tr (observed next) ([], w) = (r, (lg, w'))"
  shows "1 \<le> length lg \<and> length lg \<le> max 1 (nat limit) \<and> r = last lg \<and>
         (\<forall>x \<in> set (butlast lg). \<exists>e. x = Some e \<and> tr e) \<and>
         (\<forall>e. r = Some e \<and> tr e \<longrightarrow> length lg = max 1 (nat limit))"
proof -
  obtain r1 w1 where nx: "next w = (r1, w1)" by (cases "next w")
  show ?thesis
  proof (cases r1)
    case None
    with assms nx show ?thesis
      by (auto simp: retry_Handle_def observed_apply)
  next
    case (Some e1)
    with assms nx
    have "retry_reissue (nat limit - 1) tr (observed next) e1 ([Some e1], w1) = (r, (lg, w'))"
      by (auto simp: retry_Handle_def observed_apply)
    from retry_reissue_observed [OF this] obtain new where
      new: "lg = [Some e1] @ new" "length new \<le> nat limit - 1"
        "\<forall>x \<in> set (butlast new). \<exists>e'. x = Some e' \<and> tr e'"
        "new = [] \<longrightarrow> r = Some e1"
        "new \<noteq> [] \<longrightarrow> tr e1 \<and> r = last new"
        "\<forall>e'. r = Some e' \<and> tr e' \<longrightarrow> length new = nat limit - 1"
      by blast
    have "1 \<le> length lg" using new(1) by simp
    moreover have "length lg \<le> max 1 (nat limit)" using new(1,2) by auto
    moreover have "r = last lg" using new(1,4,5) by auto
    moreover have "\<forall>x \<in> set (butlast lg). \<exists>e. x = Some e \<and> tr e"
      using new(1,3,5) by (auto simp: butlast_append)
    moreover have "\<forall>e. r = Some e \<and> tr e \<longrightarrow> length lg = max 1 (nat limit)"
      using new(1,6) by auto
    ultimately show ?thesis by blast
  qed
qed

lemma retry_Handle_fifth:
  assumes "next w0 = (Some e1, w1)" "tr e1" "next w1 = (Some e2, w2)" "tr e2"
    "next w2 = (Some e3, w3)" "tr e3" "next w3 = (Some e4, w4)" "tr e4"
    "next w4 = (None, w5)"
  shows "retry_Handle 5 tr (observed next) ([], w0) =
           (None, ([Some e1, Some e2, Some e3, Some e4, None], w5))"
  using assms by (simp add: retry_Handle_def observed_apply eval_nat_numeral)

text \<open>
  Claim C6. The default middlewares hold the retry stage with the count 5. With that
  count the stage makes between one and five attempts; every attempt but the last one
  made failed with a transient error, so a rejection is never followed by another
  attempt; the result is that of the last attempt, and a transient failure is the result
  only after five attempts. In particular, transient failures on attempts 1 to 4 and
  success on attempt 5 give success after exactly five attempts.
\<close>

theorem retry_stage_five_attempts:
  "NewDefaultMiddlewares env ctx timeout ! 1 = retry_New 5 \<and>
   (\<forall>r lg w'. retry_Handle 5 tr (observed next) ([], w) = (r, (lg, w')) \<longrightarrow>
      1 \<le> length lg \<and> length lg \<le> 5 \<and> r = last lg \<and>
      (\<forall>x \<in> set (butlast lg). \<exists>e. x = Some e \<and> tr e) \<and>
      (\<forall>e. r = Some e \<and> tr e \<longrightarrow> length lg = 5)) \<and>
   (\<forall>e1 e2 e3 e4 w1 w2 w3 w4 w5.
      next w = (Some e1, w1) \<and> tr e1 \<and> next w1 = (Some e2, w2) \<and> tr e2 \<and>
      next w2 = (Some e3, w3) \<and> tr e3 \<and> next w3 = (Some e4, w4) \<and> tr e4 \<and>
      next w4 = (None, w5) \<longrightarrow>
      retry_Handle 5 tr (observed next) ([], w) =
        (None, ([Some e1, Some e2, Some e3, Some e4, None], w5)))"
proof (intro conjI)
  show "NewDefaultMiddlewares env ctx timeout ! 1 = retry_New 5"
    by (simp add: NewDefaultMiddlewares_def)
next
  show "\<forall>r lg w'. retry_Handle 5 tr (observed next) ([], w) = (r, (lg, w')) \<longrightarrow>
      1 \<le> length lg \<and> length lg \<le> 5 \<and> r = last lg \<and>
      (\<forall>x \<in> set (butlast lg). \<exists>e. x = Some e \<and> tr e) \<and>
      (\<forall>e. r = Some e \<and> tr e \<longrightarrow> length lg = 5)"
  proof (intro allI impI)
    fix r lg w'
    assume run: "retry_Handle 5 tr (observed next) ([], w) = (r, (lg, w'))"
    from retry_Handle_observed [OF run]
    show "1 \<le> length lg \<and> length lg \<le> 5 \<and> r = last lg \<and>
      (\<forall>x \<in> set (butlast lg). \<exists>e. x = Some e \<and> tr e) \<and>
      (\<forall>e. r = Some e \<and> tr e \<longrightarrow> length lg = 5)"
      by simp
  qed
next
  show "\<forall>e1 e2 e3 e4 w1 w2 w3 w4 w5.
      next w = (Some e1, w1) \<and> tr e1 \<and> next w1 = (Some e2, w2) \<and> tr e2 \<and>
      next w2 = (Some e3, w3) \<and> tr e3 \<and> next w3 = (Some e4, w4) \<and> tr e4 \<and>
      next w4 = (None, w5) \<longrightarrow>
      retry_Handle 5 tr (observed next) ([], w) =
        (None, ([Some e1, Some e2, Some e3, Some e4, None], w5))"
  proof (intro allI impI)
    fix e1 e2 e3 e4 w1 w2 w3 w4 w5
    assume a: "next w = (Some e1, w1) \<and> tr e1 \<and> next w1 = (Some e2, w2) \<and> tr e2 \<and>
      next w2 = (Some e3, w3) \<and> tr e3 \<and> next w3 = (Some e4, w4) \<and> tr e4 \<and>
      next w4 = (None, w5)"
    show "retry_Handle 5 tr (observed next) ([], w) =
        (None, ([Some e1, Some e2, Some e3, Some e4, None], w5))"
      by (rule retry_Handle_fifth [of "next" w e1 w1 tr e2 w2 e3 w3 e4 w4 w5]) (simp_all add: a)
  qed
qed

theorem retry_stage_five_attempts_witness:
  "retry_Handle 5 (\<lambda>e. e = Errorf ''timeout'') (observed flaky) ([], 0) =
     (None,
      ([Some (Errorf ''timeout''), Some (Errorf ''timeout''), Some (Errorf ''timeout''),
        Some (Errorf ''timeout''), None], 5)) \<and>
   length [Some (Errorf ''timeout''), Some (Errorf ''timeout''), Some (Errorf ''timeout''),
        Some (Errorf ''timeout''), None] \<le> (5::nat)"
proof -
  let ?t = "Errorf ''timeout''"
  have calls: "flaky 0 = (Some ?t, 1) \<and> ?t = ?t \<and> flaky 1 = (Some ?t, 2) \<and> ?t = ?t \<and>
      flaky 2 = (Some ?t, 3) \<and> ?t = ?t \<and> flaky 3 = (Some ?t, 4) \<and> ?t = ?t \<and>
      flaky 4 = (None, 5)"
    by (simp add: flaky_def)
  note inst = retry_stage_five_attempts [of _ _ _ "\<lambda>e. e = ?t" flaky 0]
  note scenario = inst [THEN conjunct2, THEN conjunct2, rule_format]
  note bound = inst [THEN conjunct2, THEN conjunct1, rule_format]
  have run: "retry_Handle 5 (\<lambda>e. e = ?t) (observed flaky) ([], 0) =
      (None, ([Some ?t, Some ?t, Some ?t, Some ?t, None], 5))"
    by (rule scenario [OF calls])
  have "length [Some ?t, Some ?t, Some ?t, Some ?t, None] \<le> (5::nat)"
    by (rule conjunct1 [OF conjunct2 [OF bound [OF run]]])
  with run show ?thesis by (rule conjI)
qed

section \<open>Properties of the install command\<close>

text \<open>
  Claim C8. \<open>Install\<close> returns no error on any input. When the manager's \<open>Install\<close>
  fails, the command prints the line "install extension ... failed: ..." with the
  manager's error after the line announcing the installation, and returns nil.
\<close>

theorem Install_swallows_error:
  "fst (Install env target force w) = None \<and>
   (\<forall>err w'. em_Install env target force w = (Some err, w') \<longrightarrow>
      Install env target force w =
        (None,
         info 0 (''installing extension '' @ normalizeExtName env target @ ''...'') @
         fail 0 (''install extension '' @ normalizeExtName env target @ '' failed: '' @
                 Error err),
         w'))"
  by (auto simp: Install_def Let_def split: prod.splits option.splits)

theorem Install_swallows_error_witness:
  "em_Install failing_em ''owner/foo'' False () = (Some (Errorf ''network unreachable''), ()) \<and>
   Install failing_em ''owner/foo'' False () =
     (None,
      [color_Print [FgBlue, Bold] [CHR 0xE2, CHR 0x80, CHR 0xA2, CHR '' ''],
       fmt_Printf (''installing extension tdl-foo...'' @ [CHR 0x0A]),
       color_Print [FgRed, Bold] [CHR 0xE2, CHR 0x80, CHR 0xA2, CHR '' ''],
       fmt_Printf (''install extension tdl-foo failed: network unreachable'' @ [CHR 0x0A])],
      ())"
proof -
  have f: "em_Install failing_em ''owner/foo'' False () =
      (Some (Errorf ''network unreachable''), ())"
    by (simp add: failing_em_def)
  have n: "normalizeExtName failing_em ''owner/foo'' = ''tdl-foo''"
    by (simp add: normalizeExtName_def failing_em_def IndexRune_def HasPrefix_def)
  from Install_swallows_error [of failing_em "''owner/foo''" False "()"] f
  have "Install failing_em ''owner/foo'' False () =
        (None,
         info 0 (''installing extension '' @ normalizeExtName failing_em ''owner/foo'' @ ''...'') @
         fail 0 (''install extension '' @ normalizeExtName failing_em ''owner/foo'' @
                 '' failed: '' @ Error (Errorf ''network unreachable'')),
         ())"
    by blast
  then show ?thesis using f n by (simp add: info_def fail_def colorPrint_def)
qed

end
